theory Spec2Isabelle
  imports Complex_Main "HOL-Library.AList" "HOL-Library.Char_ord" "HOL-Library.List_Lexorder"
begin

section \<open>Data model\<close>

text \<open>
  The entities of \<^verbatim>\<open>lib/storage.ts\<close> and \<^verbatim>\<open>shared/schema.ts\<close>. A quantity is a
  JavaScript number with an integer value, a price is a JavaScript number, given by the
  rational it denotes, and \<^verbatim>\<open>createdAt\<close> is the text that is stored. Strings are
  sequences of 8-bit characters, compared as \<^verbatim>\<open>Array.prototype.sort\<close> compares ASCII
  text. The fields \<^verbatim>\<open>createdAt\<close> and \<^verbatim>\<open>updatedAt\<close> of a product are not read by any
  function embedded here and are left out.
\<close>

datatype movement_type = Entry | Exit

record category =
  c_id :: string
  c_name :: string
  color :: string

record product =
  p_id :: string
  p_name :: string
  categoryId :: string
  p_quantity :: int
  minStock :: int
  price :: rat
  p_unit :: string

record movement =
  m_id :: string
  productId :: string
  mtype :: movement_type
  m_quantity :: int
  m_note :: string
  createdAt :: string

datatype period = P7d | P30d | P90d | PAll

text \<open>
  What the functions take from the JavaScript host: its time zone, as the two conversions
  of ECMAScript (\<^verbatim>\<open>LocalTime(t)\<close> from a time value to local time and \<^verbatim>\<open>UTC(t)\<close>
  back, both in milliseconds), and the time value that \<^verbatim>\<open>new Date(text)\<close> gives to a
  text, \<^const>\<open>None\<close> for an invalid date.
\<close>

record host =
  localTime :: "int \<Rightarrow> int"
  utcTime :: "int \<Rightarrow> int"
  parseDate :: "string \<Rightarrow> int option"

section \<open>JavaScript numbers\<close>

text \<open>
  A finite number is the rational it denotes, and every operation rounds its exact result
  to the nearest binary64 value, ties to even (\<open>toDouble\<close>). A result that is not a finite
  number is a \<open>fault\<close>: \<open>NotFinite\<close> for an overflow to \<^verbatim>\<open>Infinity\<close> and for \<^verbatim>\<open>NaN\<close>,
  \<open>DivisionByZero\<close> for a division by zero, \<open>NotNumber\<close> for a text where a number is
  meant. JavaScript goes on with these values; the model stops at them. \<open>TypeError\<close> is
  the exception that JavaScript throws when a property of \<^verbatim>\<open>undefined\<close> is read.
\<close>

datatype fault = TypeError | DivisionByZero | NotFinite | NotNumber

definition bindF :: "fault + 'a \<Rightarrow> ('a \<Rightarrow> fault + 'b) \<Rightarrow> fault + 'b" where
  "bindF x f = (case x of Inl e \<Rightarrow> Inl e | Inr v \<Rightarrow> f v)"

text \<open>\<open>ilog2 n\<close> is \<open>\<lfloor>log\<^sub>2 n\<rfloor>\<close> for \<open>n \<ge> 1\<close>, and \<open>floorLog2 x\<close> is \<open>\<lfloor>log\<^sub>2 x\<rfloor>\<close> for a
  positive rational.\<close>

function ilog2 :: "int \<Rightarrow> int" where
  "ilog2 n = (if n \<le> 1 then 0 else 1 + ilog2 (n div 2))"
  by pat_completeness auto
termination
  by (relation "measure nat") auto

definition floorLog2 :: "rat \<Rightarrow> int" where
  "floorLog2 x =
     (let e = ilog2 (fst (quotient_of x)) - ilog2 (snd (quotient_of x))
      in if x < 2 powi e then e - 1 else e)"

definition roundHalfEven :: "rat \<Rightarrow> int" where
  "roundHalfEven r =
     (let f = \<lfloor>r\<rfloor>; d = r - of_int f
      in if d < 1 / 2 then f else if 1 / 2 < d then f + 1 else if even f then f else f + 1)"

text \<open>
  Rounding to binary64: 53 significant bits, exponents from \<open>-1022\<close> (below which the
  spacing stays \<open>2\<^sup>-\<^sup>1\<^sup>0\<^sup>7\<^sup>4\<close>) to \<open>1023\<close> (above which the result is \<^verbatim>\<open>Infinity\<close>).
\<close>

definition toDouble :: "rat \<Rightarrow> fault + rat" where
  "toDouble x =
     (if x = 0 then Inr 0
      else
        let e = max (floorLog2 \<bar>x\<bar>) (- 1022);
            m = roundHalfEven (\<bar>x\<bar> / 2 powi (e - 52))
        in if 1023 < e \<or> (e = 1023 \<and> 9007199254740992 \<le> m) then Inl NotFinite
           else Inr (sgn x * of_int m * 2 powi (e - 52)))"

definition fadd :: "rat \<Rightarrow> rat \<Rightarrow> fault + rat" where
  "fadd a b = toDouble (a + b)"

definition fmul :: "rat \<Rightarrow> rat \<Rightarrow> fault + rat" where
  "fmul a b = toDouble (a * b)"

definition fdiv :: "rat \<Rightarrow> rat \<Rightarrow> fault + rat" where
  "fdiv a b = (if b = 0 then Inl DivisionByZero else toDouble (a / b))"

text \<open>Sum and difference of two numbers with integer values; the rounded result is an
  integer again.\<close>

definition iadd :: "int \<Rightarrow> int \<Rightarrow> fault + int" where
  "iadd a b = bindF (toDouble (of_int (a + b))) (\<lambda>r. Inr \<lfloor>r\<rfloor>)"

definition isub :: "int \<Rightarrow> int \<Rightarrow> fault + int" where
  "isub a b = bindF (toDouble (of_int (a - b))) (\<lambda>r. Inr \<lfloor>r\<rfloor>)"

definition Math_ceil :: "rat \<Rightarrow> int" where
  "Math_ceil x = \<lceil>x\<rceil>"

text \<open>\<^verbatim>\<open>Math.round\<close> gives the nearest integer, a half towards \<open>+\<infinity>\<close>.\<close>

definition Math_round :: "rat \<Rightarrow> int" where
  "Math_round x = \<lfloor>x + 1 / 2\<rfloor>"

text \<open>\<^verbatim>\<open>xs.reduce((a, x) => f(a, x), z)\<close> with a body that can end in a fault, and a
  list of results gathered up to the first fault.\<close>

definition reduceF :: "('a \<Rightarrow> 'b \<Rightarrow> fault + 'a) \<Rightarrow> 'a \<Rightarrow> 'b list \<Rightarrow> fault + 'a" where
  "reduceF f z xs = foldl (\<lambda>acc x. bindF acc (\<lambda>a. f a x)) (Inr z) xs"

fun collect :: "(fault + 'a) list \<Rightarrow> fault + 'a list" where
  "collect [] = Inr []"
| "collect (Inl e # rs) = Inl e"
| "collect (Inr x # rs) = (case collect rs of Inl e \<Rightarrow> Inl e | Inr xs \<Rightarrow> Inr (x # xs))"

section \<open>Period filter\<close>

definition msPerDay :: int where
  "msPerDay = 1000 * 60 * 60 * 24"

text \<open>\<^verbatim>\<open>TimeClip\<close> of ECMAScript: a time value is within \<open>8.64 \<times> 10\<^sup>1\<^sup>5\<close> ms of the epoch.\<close>

definition TimeClip :: "int \<Rightarrow> int option" where
  "TimeClip t = (if \<bar>t\<bar> \<le> 8640000000000000 then Some t else None)"

text \<open>
  \<^verbatim>\<open>cutoff.setDate(cutoff.getDate() - days)\<close> on a date that holds the clock reading
  \<open>now\<close>: the day of the month is changed in local time, which moves the local time back by
  \<open>days\<close> calendar days and keeps the time of day, and the result is converted back.
\<close>

definition cutoffOf :: "host \<Rightarrow> int \<Rightarrow> int \<Rightarrow> int option" where
  "cutoffOf h now days = TimeClip (utcTime h (localTime h now - days * msPerDay))"

text \<open>\<^verbatim>\<open>new Date(m.createdAt) >= cutoff\<close>: false when either date is invalid.\<close>

definition notBefore :: "int option \<Rightarrow> int option \<Rightarrow> bool" where
  "notBefore t c = (case (t, c) of (Some a, Some b) \<Rightarrow> b \<le> a | _ \<Rightarrow> False)"

text \<open>
  \<^verbatim>\<open>filterByPeriod\<close> (reports.tsx, lines 44-50). The source takes the movements and
  the period and reads the clock itself, once in every call (\<^verbatim>\<open>new Date()\<close>); the time
  value it reads is the argument \<open>now\<close>.
\<close>

definition filterByPeriod :: "host \<Rightarrow> int \<Rightarrow> movement list \<Rightarrow> period \<Rightarrow> movement list" where
  "filterByPeriod h now movements period =
     (if period = PAll then movements
      else
        let days = (if period = P7d then 7 else if period = P30d then 30 else 90);
            cutoff = cutoffOf h now days
        in filter (\<lambda>m. notBefore (parseDate h (createdAt m)) cutoff) movements)"

text \<open>\<^verbatim>\<open>periodDays\<close> of \<^verbatim>\<open>consumptionData\<close> (line 145); \<^verbatim>\<open>null\<close> is \<^const>\<open>None\<close>.\<close>

definition periodDays :: "period \<Rightarrow> int option" where
  "periodDays period =
     (if period = P7d then Some 7 else if period = P30d then Some 30
      else if period = P90d then Some 90 else None)"

text \<open>For the statements about the filter: \<open>widerOrSame q p\<close> says that the period \<open>q\<close> is
  \<open>p\<close> or reaches further back than \<open>p\<close>.\<close>

definition widerOrSame :: "period \<Rightarrow> period \<Rightarrow> bool" where
  "widerOrSame q p \<longleftrightarrow>
     q = PAll \<or> (p \<noteq> PAll \<and> the (periodDays p) \<le> the (periodDays q))"

section \<open>JavaScript objects used as dictionaries\<close>

text \<open>
  A \<^verbatim>\<open>Record<string, V>\<close> that starts as \<^verbatim>\<open>{}\<close> is the list of its own properties in
  creation order. Assigning to an existing key keeps its position, assigning to a new key
  appends (\<^const>\<open>AList.update\<close>). Reading a key that is not an own property gives what
  \<^verbatim>\<open>Object.prototype\<close> has under that name: for the names below a function or an
  object, for every other name \<^verbatim>\<open>undefined\<close>. \<^verbatim>\<open>Object.entries\<close> enumerates the keys
  that are array indices (canonical decimal numerals below \<open>2\<^sup>3\<^sup>2 - 1\<close>) first, in ascending
  numeric order, and then every other key in creation order.
\<close>

type_synonym 'v js_object = "(string \<times> 'v) list"

definition inheritedNames :: "string list" where
  "inheritedNames =
     [''constructor'', ''__defineGetter__'', ''__defineSetter__'', ''hasOwnProperty'',
      ''__lookupGetter__'', ''__lookupSetter__'', ''isPrototypeOf'', ''propertyIsEnumerable'',
      ''toString'', ''valueOf'', ''__proto__'', ''toLocaleString'']"

definition is_digit :: "char \<Rightarrow> bool" where
  "is_digit c \<longleftrightarrow> (48::int) \<le> of_char c \<and> of_char c \<le> (57::int)"

definition index_val :: "string \<Rightarrow> int" where
  "index_val s = foldl (\<lambda>n c. 10 * n + (of_char c - 48)) 0 s"

definition is_array_index :: "string \<Rightarrow> bool" where
  "is_array_index s \<longleftrightarrow>
     s \<noteq> [] \<and> list_all is_digit s \<and> (hd s \<noteq> CHR ''0'' \<or> s = ''0'') \<and> index_val s < 4294967295"

definition Object_entries :: "'v js_object \<Rightarrow> (string \<times> 'v) list" where
  "Object_entries obj =
     sort_key (\<lambda>kv. index_val (fst kv)) (filter (\<lambda>kv. is_array_index (fst kv)) obj)
     @ filter (\<lambda>kv. \<not> is_array_index (fst kv)) obj"

section \<open>Aggregation in \<^verbatim>\<open>ReportsScreen\<close>\<close>

text \<open>The memoised values of \<^verbatim>\<open>ReportsScreen\<close> (reports.tsx, lines 113-135), as functions
  of what they are computed from.\<close>

definition filtered ::
    "host \<Rightarrow> int \<Rightarrow> movement list \<Rightarrow> period \<Rightarrow> string list \<Rightarrow> movement list" where
  "filtered h now movements period selectedProductIds =
     (let result = filterByPeriod h now movements period
      in if length selectedProductIds > 0
         then filter (\<lambda>m. productId m \<in> set selectedProductIds) result
         else result)"

definition entries :: "movement list \<Rightarrow> movement list" where
  "entries flt = filter (\<lambda>m. mtype m = Entry) flt"

definition exits :: "movement list \<Rightarrow> movement list" where
  "exits flt = filter (\<lambda>m. mtype m = Exit) flt"

text \<open>\<^verbatim>\<open>products.find((p) => p.id === id)?.price ?? 0\<close>\<close>

definition priceOf :: "product list \<Rightarrow> string \<Rightarrow> rat" where
  "priceOf products pid =
     (case find (\<lambda>p. p_id p = pid) products of None \<Rightarrow> 0 | Some p \<Rightarrow> price p)"

definition totalEntryQty :: "movement list \<Rightarrow> fault + int" where
  "totalEntryQty ents = reduceF (\<lambda>a m. iadd a (m_quantity m)) 0 ents"

definition totalExitQty :: "movement list \<Rightarrow> fault + int" where
  "totalExitQty exts = reduceF (\<lambda>a m. iadd a (m_quantity m)) 0 exts"

definition entryValue :: "product list \<Rightarrow> movement list \<Rightarrow> fault + rat" where
  "entryValue products ents =
     reduceF (\<lambda>acc m. bindF (fmul (of_int (m_quantity m)) (priceOf products (productId m)))
                          (fadd acc)) 0 ents"

definition exitValue :: "product list \<Rightarrow> movement list \<Rightarrow> fault + rat" where
  "exitValue products exts =
     reduceF (\<lambda>acc m. bindF (fmul (of_int (m_quantity m)) (priceOf products (productId m)))
                          (fadd acc)) 0 exts"

text \<open>
  The grouping loop shared by \<^verbatim>\<open>topEntryByProduct\<close> and \<^verbatim>\<open>topExitByProduct\<close>
  (lines 184-185 and 194-195):
  \<^verbatim>\<open>ms.forEach((m) => { map[m.productId] = (map[m.productId] ?? 0) + m.quantity; })\<close>,
  starting from the empty object. For an id that is not an own key and is a name of
  \<^verbatim>\<open>Object.prototype\<close>, the value read is not \<^verbatim>\<open>undefined\<close>, and adding the quantity
  to it makes a text. The assignment stores that text under the id, except for
  \<^verbatim>\<open>__proto__\<close>, where the assignment of a text is ignored and the object stays as it is.
\<close>

definition groupStep :: "movement \<Rightarrow> int js_object \<Rightarrow> fault + int js_object" where
  "groupStep m mp =
     (case map_of mp (productId m) of
        Some v \<Rightarrow> bindF (iadd v (m_quantity m)) (\<lambda>v'. Inr (AList.update (productId m) v' mp))
      | None \<Rightarrow>
          if productId m = ''__proto__'' then Inr mp
          else if productId m \<in> set inheritedNames then Inl NotNumber
          else bindF (iadd 0 (m_quantity m)) (\<lambda>v'. Inr (AList.update (productId m) v' mp)))"

definition sumByProduct :: "movement list \<Rightarrow> fault + int js_object" where
  "sumByProduct ms = fold (\<lambda>m st. bindF st (groupStep m)) ms (Inr [])"

record ranking_item =
  ri_product :: "product option"
  qty :: int

text \<open>
  The rest of the two rankings (lines 186-190 and 196-200): resolve each id against the
  catalog, drop the ids without a product, sort with the comparator \<^verbatim>\<open>b.qty - a.qty\<close>,
  keep the first ten. \<^verbatim>\<open>Array.prototype.sort\<close> is stable, and on finite numbers the
  rounded difference has the sign of the exact one, so the sort is by descending quantity.
\<close>

definition resolve :: "product list \<Rightarrow> string \<times> int \<Rightarrow> ranking_item" where
  "resolve products = (\<lambda>(pid, q). \<lparr>ri_product = find (\<lambda>p. p_id p = pid) products, qty = q\<rparr>)"

definition rankByProduct :: "int js_object \<Rightarrow> product list \<Rightarrow> ranking_item list" where
  "rankByProduct mp products =
     take 10
       (sort_key (\<lambda>x. - qty x)
         (filter (\<lambda>x. ri_product x \<noteq> None)
           (map (resolve products) (Object_entries mp))))"

definition topEntryByProduct :: "movement list \<Rightarrow> product list \<Rightarrow> fault + ranking_item list" where
  "topEntryByProduct ents products =
     bindF (sumByProduct ents) (\<lambda>mp. Inr (rankByProduct mp products))"

definition topExitByProduct :: "movement list \<Rightarrow> product list \<Rightarrow> fault + ranking_item list" where
  "topExitByProduct exts products =
     bindF (sumByProduct exts) (\<lambda>mp. Inr (rankByProduct mp products))"

text \<open>The monetary value of a ranking row: its summed quantity times the current price of
  its product, as one JavaScript multiplication.\<close>

definition itemValue :: "ranking_item \<Rightarrow> fault + rat" where
  "itemValue r = fmul (of_int (qty r)) (case ri_product r of None \<Rightarrow> 0 | Some p \<Rightarrow> price p)"

section \<open>Consumption analysis\<close>

record exit_group =
  total :: int
  dates :: "string list"

datatype urgency = Critical | Warning | Ok

record consumption_entry =
  ce_product :: product
  ce_category :: "category option"
  totalConsumed :: int
  movCount :: nat
  dailyAvg :: rat
  monthlyProjection :: rat
  daysUntilEmpty :: "int option"
  status :: urgency
  costProjection :: rat

text \<open>
  The loop of lines 138-143. \<^verbatim>\<open>if (!exitsByProduct[id])\<close> sees a function or an object
  for an id that is a name of \<^verbatim>\<open>Object.prototype\<close>, creates no group, and
  \<^verbatim>\<open>exitsByProduct[id].dates.push\<close> throws a \<^verbatim>\<open>TypeError\<close>, whatever the totals are by
  then. For every other id the first exit creates the group, and every exit adds its
  quantity and appends its date.
\<close>

definition groupOf :: "exit_group js_object \<Rightarrow> string \<Rightarrow> exit_group" where
  "groupOf obj k = (case map_of obj k of None \<Rightarrow> \<lparr>total = 0, dates = []\<rparr> | Some d \<Rightarrow> d)"

definition exitStep :: "movement \<Rightarrow> fault + exit_group js_object \<Rightarrow> fault + exit_group js_object" where
  "exitStep m st =
     (if productId m \<in> set inheritedNames then Inl TypeError
      else bindF st (\<lambda>obj.
        let cur = groupOf obj (productId m)
        in bindF (iadd (total cur) (m_quantity m)) (\<lambda>t.
             Inr (AList.update (productId m)
                    \<lparr>total = t, dates = dates cur @ [createdAt m]\<rparr> obj))))"

definition exitsByProduct :: "movement list \<Rightarrow> fault + exit_group js_object" where
  "exitsByProduct exts = fold exitStep exts (Inr [])"

text \<open>Lines 163-165.\<close>

definition statusOf :: "int option \<Rightarrow> urgency" where
  "statusOf d =
     (if d \<noteq> None \<and> the d \<le> 7 then Critical
      else if d \<noteq> None \<and> the d \<le> 30 then Warning
      else Ok)"

text \<open>
  Lines 153-156: the dates are sorted as texts (\<^verbatim>\<open>data.dates.sort()\<close>), the first and
  the last are read as dates, and the span is
  \<^verbatim>\<open>Math.max(1, Math.ceil((last - first) / (1000 * 60 * 60 * 24)))\<close>. An invalid date
  makes the span \<^verbatim>\<open>NaN\<close>.
\<close>

definition daySpan :: "host \<Rightarrow> string list \<Rightarrow> fault + int" where
  "daySpan h ds =
     (let sortedDates = sort ds
      in if sortedDates = [] then Inl NotFinite
         else
           case (parseDate h (hd sortedDates), parseDate h (last sortedDates)) of
             (Some firstDate, Some lastDate) \<Rightarrow>
               bindF (isub lastDate firstDate) (\<lambda>diff.
               bindF (fdiv (of_int diff) (of_int msPerDay)) (\<lambda>x.
                 Inr (max 1 (Math_ceil x))))
           | _ \<Rightarrow> Inl NotFinite)"

text \<open>
  The callback of \<^verbatim>\<open>.map\<close> (lines 148-178); \<^verbatim>\<open>null\<close> is \<^const>\<open>None\<close>. The span is
  only used, and only computed here, when the period is \<^verbatim>\<open>all\<close>
  (\<^verbatim>\<open>periodDays ?? daySpan\<close>).
\<close>

definition consumptionRow ::
    "host \<Rightarrow> period \<Rightarrow> product list \<Rightarrow> category list \<Rightarrow> string \<times> exit_group
       \<Rightarrow> fault + consumption_entry option" where
  "consumptionRow h period products categories = (\<lambda>(pid, data).
     case find (\<lambda>p. p_id p = pid) products of
       None \<Rightarrow> Inr None
     | Some product \<Rightarrow>
         bindF (case periodDays period of Some d \<Rightarrow> Inr d | None \<Rightarrow> daySpan h (dates data))
           (\<lambda>actualDays.
         bindF (fdiv (of_int (total data)) (of_int (max actualDays 1))) (\<lambda>dAvg.
         bindF (fmul dAvg 30) (\<lambda>mProj.
         bindF (if dAvg > 0
                then bindF (fdiv (of_int (p_quantity product)) dAvg)
                       (\<lambda>r. Inr (Some (Math_round r)))
                else Inr None) (\<lambda>dte.
         bindF (fmul mProj (price product)) (\<lambda>cost.
           Inr (Some \<lparr>ce_product = product,
                      ce_category = find (\<lambda>c. c_id c = categoryId product) categories,
                      totalConsumed = total data,
                      movCount = length (dates data),
                      dailyAvg = dAvg,
                      monthlyProjection = mProj,
                      daysUntilEmpty = dte,
                      status = statusOf dte,
                      costProjection = cost\<rparr>)))))))"

text \<open>\<^verbatim>\<open>consumptionData\<close> (lines 137-181): the loop, then map the groups, drop the
  \<^verbatim>\<open>null\<close>s (\<^verbatim>\<open>.filter(Boolean)\<close>), sort with the comparator
  \<^verbatim>\<open>b.totalConsumed - a.totalConsumed\<close>.\<close>

definition consumptionData ::
    "host \<Rightarrow> period \<Rightarrow> movement list \<Rightarrow> product list \<Rightarrow> category list
       \<Rightarrow> fault + consumption_entry list" where
  "consumptionData h period exts products categories =
     bindF (exitsByProduct exts) (\<lambda>obj.
     bindF (collect (map (consumptionRow h period products categories) (Object_entries obj)))
       (\<lambda>rows. Inr (sort_key (\<lambda>e. - totalConsumed e) (List.map_filter (\<lambda>r. r) rows))))"

section \<open>Category breakdown and stock summary\<close>

record category_row =
  cb_category :: category
  productCount :: nat
  totalQty :: int
  totalVal :: rat

text \<open>\<^verbatim>\<open>categoryBreakdown\<close> (lines 203-210).\<close>

definition categoryRow :: "product list \<Rightarrow> category \<Rightarrow> fault + category_row" where
  "categoryRow products cat =
     (let catProducts = filter (\<lambda>p. categoryId p = c_id cat) products
      in bindF (reduceF (\<lambda>a p. iadd a (p_quantity p)) 0 catProducts) (\<lambda>tq.
         bindF (reduceF (\<lambda>a p. bindF (fmul (of_int (p_quantity p)) (price p)) (fadd a))
                  0 catProducts) (\<lambda>tv.
           Inr \<lparr>cb_category = cat, productCount = length catProducts,
                totalQty = tq, totalVal = tv\<rparr>)))"

definition categoryBreakdown :: "category list \<Rightarrow> product list \<Rightarrow> fault + category_row list" where
  "categoryBreakdown categories products =
     bindF (collect (map (categoryRow products) categories)) (\<lambda>rows.
       Inr (sort_key (\<lambda>c. - totalVal c) (filter (\<lambda>c. productCount c > 0) rows)))"

record stock_summary =
  totalStockValue :: rat
  avgPrice :: rat
  lowStock :: "product list"
  zeroStock :: "product list"
  maxCatVal :: rat

text \<open>\<^verbatim>\<open>xs.length > 0 ? xs[0].f : 1\<close>, as in lines 220, 267 and 318: reading \<^verbatim>\<open>xs[0].f\<close>
  of an empty array would throw.\<close>

definition firstOr1 :: "('a \<Rightarrow> 'n::one) \<Rightarrow> 'a list \<Rightarrow> fault + 'n" where
  "firstOr1 f xs =
     (if length xs > 0 then (case xs of [] \<Rightarrow> Inl TypeError | x # _ \<Rightarrow> Inr (f x)) else Inr 1)"

text \<open>The values computed by \<^verbatim>\<open>renderGeneralReport\<close> (lines 313-318).\<close>

definition renderGeneralReport :: "product list \<Rightarrow> category_row list \<Rightarrow> fault + stock_summary" where
  "renderGeneralReport products catBreakdown =
     bindF (reduceF (\<lambda>a p. bindF (fmul (of_int (p_quantity p)) (price p)) (fadd a)) 0 products)
       (\<lambda>tsv.
     bindF (if length products > 0
            then bindF (reduceF (\<lambda>a p. fadd a (price p)) 0 products)
                   (\<lambda>s. fdiv s (of_nat (length products)))
            else Inr 0) (\<lambda>avg.
     bindF (firstOr1 totalVal catBreakdown) (\<lambda>mx.
       Inr \<lparr>totalStockValue = tsv,
            avgPrice = avg,
            lowStock = filter (\<lambda>p. p_quantity p \<le> minStock p) products,
            zeroStock = filter (\<lambda>p. p_quantity p = 0) products,
            maxCatVal = mx\<rparr>)))"

section \<open>The report\<close>

text \<open>
  Everything \<^verbatim>\<open>ReportsScreen\<close> derives from its state for the four tabs, gathered in
  one value: the filtered movements and their partition, the totals, the two rankings with
  the maxima of \<^verbatim>\<open>renderEntriesReport\<close> and \<^verbatim>\<open>renderExitsReport\<close>, the consumption
  analysis, the category breakdown and the stock summary. Only the consumption analysis
  can throw, and it does so whatever the other values are, so it comes first here.
\<close>

record report =
  r_filtered :: "movement list"
  r_entries :: "movement list"
  r_exits :: "movement list"
  r_totalEntryQty :: int
  r_totalExitQty :: int
  r_entryValue :: rat
  r_exitValue :: rat
  r_topEntryByProduct :: "ranking_item list"
  r_topExitByProduct :: "ranking_item list"
  r_maxEntry :: int
  r_maxExit :: int
  r_consumptionData :: "consumption_entry list"
  r_categoryBreakdown :: "category_row list"
  r_general :: stock_summary

definition ReportsScreen ::
    "host \<Rightarrow> int \<Rightarrow> movement list \<Rightarrow> product list \<Rightarrow> category list \<Rightarrow> period \<Rightarrow> string list
       \<Rightarrow> fault + report" where
  "ReportsScreen h now movements products categories period selectedProductIds =
     (let flt = filtered h now movements period selectedProductIds;
          ents = entries flt;
          exts = exits flt
      in bindF (consumptionData h period exts products categories) (\<lambda>cons.
         bindF (totalEntryQty ents) (\<lambda>teq.
         bindF (totalExitQty exts) (\<lambda>txq.
         bindF (entryValue products ents) (\<lambda>ev.
         bindF (exitValue products exts) (\<lambda>xv.
         bindF (topEntryByProduct ents products) (\<lambda>topEntry.
         bindF (topExitByProduct exts products) (\<lambda>topExit.
         bindF (categoryBreakdown categories products) (\<lambda>catBreakdown.
         bindF (firstOr1 qty topEntry) (\<lambda>maxEntry.
         bindF (firstOr1 qty topExit) (\<lambda>maxExit.
         bindF (renderGeneralReport products catBreakdown) (\<lambda>general.
           Inr \<lparr>r_filtered = flt,
                r_entries = ents,
                r_exits = exts,
                r_totalEntryQty = teq,
                r_totalExitQty = txq,
                r_entryValue = ev,
                r_exitValue = xv,
                r_topEntryByProduct = topEntry,
                r_topExitByProduct = topExit,
                r_maxEntry = maxEntry,
                r_maxExit = maxExit,
                r_consumptionData = cons,
                r_categoryBreakdown = catBreakdown,
                r_general = general\<rparr>))))))))))))"

section \<open>Recording a movement\<close>

text \<open>
  The handler of \<^verbatim>\<open>POST /api/movements\<close> in \<^verbatim>\<open>registerRoutes\<close>, over the tables of
  \<^verbatim>\<open>shared/schema.ts\<close> as lists of rows. The insert fails, and the handler answers with
  status 500 and has changed nothing, when the id of the movement is already in the table
  (primary key), when no product has the \<^verbatim>\<open>productId\<close> (foreign key) or when the
  quantity is outside the range of the \<^verbatim>\<open>integer\<close> column. After the insert the
  product is selected, the new quantity is computed in JavaScript, and the update fails,
  with status 500 and the movement already stored, when the new quantity is outside the
  range of the column. The \<^verbatim>\<open>else\<close> branch is taken by every type other than
  \<^verbatim>\<open>"entry"\<close>. The database is taken to be reachable, and the movement is given as the
  row that the insert stores.
\<close>

record db =
  db_products :: "product list"
  db_movements :: "movement list"

datatype response = Json | Status500

definition int4 :: "int \<Rightarrow> bool" where
  "int4 n \<longleftrightarrow> - 2147483648 \<le> n \<and> n \<le> 2147483647"

definition postMovement :: "db \<Rightarrow> movement \<Rightarrow> response \<times> db" where
  "postMovement d m =
     (if m_id m \<in> set (map m_id (db_movements d))
         \<or> productId m \<notin> set (map p_id (db_products d))
         \<or> \<not> int4 (m_quantity m)
      then (Status500, d)
      else
        let d' = d\<lparr>db_movements := db_movements d @ [m]\<rparr>
        in case find (\<lambda>p. p_id p = productId m) (db_products d') of
             None \<Rightarrow> (Json, d')
           | Some product \<Rightarrow>
               (case (if mtype m = Entry then iadd (p_quantity product) (m_quantity m)
                      else bindF (isub (p_quantity product) (m_quantity m))
                             (\<lambda>x. Inr (max 0 x))) of
                  Inl e \<Rightarrow> (Status500, d')
                | Inr newQuantity \<Rightarrow>
                    if int4 newQuantity
                    then (Json, d'\<lparr>db_products :=
                            map (\<lambda>p. if p_id p = productId m
                                      then p\<lparr>p_quantity := newQuantity\<rparr> else p)
                                (db_products d')\<rparr>)
                    else (Status500, d')))"

section \<open>Concrete inputs\<close>

text \<open>
  Two hosts. Both give the texts below the time values that \<^verbatim>\<open>Date.parse\<close> gives
  them, and no other text is used with them. \<open>utcHost\<close> runs in UTC. \<open>newYork2026\<close> runs
  in America/New\_York around the end of daylight saving time on 2026-11-01 at 06:00 UTC
  (time value 1793512800000): four hours behind UTC before it, five hours after it, and a
  local time from before the change is converted back with four hours.
\<close>

definition knownDates :: "(string \<times> int) list" where
  "knownDates =
     [(''2026-10-01T00:00:00.000Z'', 1790812800000),
      (''2026-10-03T12:00:00.000Z'', 1791028800000),
      (''2026-10-20T08:00:00.000Z'', 1792483200000),
      (''2026-10-26T16:30:00.000Z'', 1793032200000),
      (''2026-10-26T16:59:59.999Z'', 1793033999999),
      (''2026-10-26T17:00:00.000Z'', 1793034000000),
      (''+010000-01-01T00:00:00.000Z'', 253402300800000)]"

definition utcHost :: host where
  "utcHost = \<lparr>localTime = (\<lambda>t. t), utcTime = (\<lambda>t. t), parseDate = map_of knownDates\<rparr>"

definition newYork2026 :: host where
  "newYork2026 =
     \<lparr>localTime = (\<lambda>t. if t < 1793512800000 then t - 14400000 else t - 18000000),
      utcTime = (\<lambda>l. if l < 1793498400000 then l + 14400000 else l + 18000000),
      parseDate = map_of knownDates\<rparr>"

definition mkProduct :: "string \<Rightarrow> int \<Rightarrow> rat \<Rightarrow> product" where
  "mkProduct pid q pr =
     \<lparr>p_id = pid, p_name = pid, categoryId = ''c1'', p_quantity = q, minStock = 0,
      price = pr, p_unit = ''un''\<rparr>"

definition mkMovement :: "string \<Rightarrow> string \<Rightarrow> movement_type \<Rightarrow> int \<Rightarrow> string \<Rightarrow> movement" where
  "mkMovement mid pid ty q t =
     \<lparr>m_id = mid, productId = pid, mtype = ty, m_quantity = q, m_note = [], createdAt = t\<rparr>"

definition oneCategory :: "category list" where
  "oneCategory = [\<lparr>c_id = ''c1'', c_name = ''Outros'', color = ''#64748B''\<rparr>]"

definition urgencyProducts :: "product list" where
  "urgencyProducts =
     [mkProduct ''a'' 23 2, mkProduct ''b'' 8 2, mkProduct ''c'' 31 2, mkProduct ''d'' 5 2]"

definition urgencyExits :: "movement list" where
  "urgencyExits =
     [mkMovement ''m1'' ''a'' Exit 92 ''2026-10-20T08:00:00.000Z'',
      mkMovement ''m2'' ''b'' Exit 30 ''2026-10-20T08:00:00.000Z'',
      mkMovement ''m3'' ''c'' Exit 30 ''2026-10-20T08:00:00.000Z'',
      mkMovement ''m4'' ''d'' Exit 0 ''2026-10-20T08:00:00.000Z'']"

definition stockOfThree :: db where
  "stockOfThree = \<lparr>db_products = [mkProduct ''a'' 3 2], db_movements = []\<rparr>"

definition onTheCutoff :: movement where
  "onTheCutoff = mkMovement ''m1'' ''a'' Exit 1 ''2026-10-26T17:00:00.000Z''"

definition halfHourEarlier :: movement where
  "halfHourEarlier = mkMovement ''m2'' ''a'' Exit 1 ''2026-10-26T16:30:00.000Z''"

definition windowMovements :: "movement list" where
  "windowMovements =
     [mkMovement ''m1'' ''a'' Exit 1 ''2026-10-26T17:00:00.000Z'',
      mkMovement ''m2'' ''a'' Exit 1 ''2026-10-26T16:59:59.999Z'',
      mkMovement ''m3'' ''a'' Entry 1 ''2026-10-20T08:00:00.000Z'',
      mkMovement ''m4'' ''b'' Exit 1 ''2026-10-01T00:00:00.000Z'',
      mkMovement ''m5'' ''b'' Exit 1 ''yesterday'']"

section \<open>Properties of the number operations\<close>

declare ilog2.simps [simp del]

lemma ilog2_bounds:
  "1 \<le> n \<Longrightarrow> 0 \<le> ilog2 n \<and> 2 ^ nat (ilog2 n) \<le> n \<and> n < 2 * 2 ^ nat (ilog2 n)"
proof (induction n rule: ilog2.induct)
  case (1 n)
  show ?case
  proof (cases "n \<le> 1")
    case True
    with "1.prems" have "n = 1" by simp
    then show ?thesis by (simp add: ilog2.simps)
  next
    case False
    then have h: "1 \<le> n div 2" by simp
    from "1.IH" [OF False h]
    have IH: "0 \<le> ilog2 (n div 2)" "2 ^ nat (ilog2 (n div 2)) \<le> n div 2"
      "n div 2 < 2 * 2 ^ nat (ilog2 (n div 2))" by simp_all
    have e: "ilog2 n = 1 + ilog2 (n div 2)"
      using False by (subst ilog2.simps) simp
    have n: "nat (1 + ilog2 (n div 2)) = Suc (nat (ilog2 (n div 2)))"
      using IH(1) by simp
    show ?thesis
      unfolding e n using IH by (simp; linarith)
  qed
qed

lemma powi_nat: "0 \<le> e \<Longrightarrow> (2::rat) powi e = 2 ^ nat e"
  by (simp add: power_int_def)

lemma powi_Suc: "(2::rat) powi (e + 1) = 2 * 2 powi e"
  by (simp add: power_int_add)

lemma powi_strict_mono: "a < b \<Longrightarrow> (2::rat) powi a < 2 powi b"
  by (rule power_int_strict_increasing) simp_all

lemma powi_mono: "a \<le> b \<Longrightarrow> (2::rat) powi a \<le> 2 powi b"
  by (rule power_int_increasing) simp_all

lemma floorLog2_unique:
  assumes "(2::rat) powi e \<le> x" "x < 2 powi (e + 1)" "2 powi e' \<le> x" "x < 2 powi (e' + 1)"
  shows "e = e'"
proof (rule ccontr)
  assume "e \<noteq> e'"
  then consider "e + 1 \<le> e'" | "e' + 1 \<le> e" by linarith
  then show False
  proof cases
    case 1
    then have "(2::rat) powi (e + 1) \<le> 2 powi e'" by (rule powi_mono)
    with assms show False by simp
  next
    case 2
    then have "(2::rat) powi (e' + 1) \<le> 2 powi e" by (rule powi_mono)
    with assms show False by simp
  qed
qed

lemma floorLog2_bounds:
  assumes "0 < x"
  shows "2 powi floorLog2 x \<le> x \<and> x < 2 powi (floorLog2 x + 1)"
proof -
  obtain p q where pq: "quotient_of x = (p, q)" by (cases "quotient_of x")
  then have q: "0 < q" and x: "x = of_int p / of_int q"
    by (auto dest: quotient_of_denom_pos quotient_of_div)
  with assms have p: "0 < p"
    by (simp add: zero_less_divide_iff)
  define a where "a = ilog2 p"
  define b where "b = ilog2 q"
  from ilog2_bounds [of p] p have pa: "0 \<le> a" "2 ^ nat a \<le> p" "p < 2 * 2 ^ nat a"
    by (simp_all add: a_def)
  from ilog2_bounds [of q] q have qb: "0 \<le> b" "2 ^ nat b \<le> q" "q < 2 * 2 ^ nat b"
    by (simp_all add: b_def)
  have A: "(2::rat) powi a \<le> of_int p" "(of_int p :: rat) < 2 * 2 powi a"
  proof -
    have "(of_int (2 ^ nat a) :: rat) \<le> of_int p" using pa(2) by (simp only: of_int_le_iff)
    then show "(2::rat) powi a \<le> of_int p" by (simp add: powi_nat pa(1))
    have "(of_int p :: rat) < of_int (2 * 2 ^ nat a)" using pa(3) by (simp only: of_int_less_iff)
    then show "(of_int p :: rat) < 2 * 2 powi a" by (simp add: powi_nat pa(1))
  qed
  have B: "(2::rat) powi b \<le> of_int q" "(of_int q :: rat) < 2 * 2 powi b"
  proof -
    have "(of_int (2 ^ nat b) :: rat) \<le> of_int q" using qb(2) by (simp only: of_int_le_iff)
    then show "(2::rat) powi b \<le> of_int q" by (simp add: powi_nat qb(1))
    have "(of_int q :: rat) < of_int (2 * 2 ^ nat b)" using qb(3) by (simp only: of_int_less_iff)
    then show "(of_int q :: rat) < 2 * 2 powi b" by (simp add: powi_nat qb(1))
  qed
  have qpos: "(0::rat) < of_int q" using q by simp
  have d: "(2::rat) powi (a - b) = 2 powi a / 2 powi b"
    by (simp add: power_int_diff)
  have lo: "(2::rat) powi (a - b - 1) \<le> x"
  proof -
    have "(2::rat) powi (a - b - 1) = 2 powi a / (2 * 2 powi b)"
      by (simp add: power_int_diff)
    also have "\<dots> \<le> of_int p / (2 * 2 powi b)"
      using A(1) by (simp add: divide_right_mono)
    also have "\<dots> \<le> of_int p / of_int q"
      using B(2) qpos p by (intro divide_left_mono) (simp_all add: less_imp_le)
    finally show ?thesis by (simp add: x)
  qed
  have hi: "x < (2::rat) powi (a - b + 1)"
  proof -
    have "x = of_int p / of_int q" by (rule x)
    also have "\<dots> \<le> of_int p / 2 powi b"
      using B(1) p qpos by (intro divide_left_mono) simp_all
    also have "\<dots> < (2 * 2 powi a) / 2 powi b"
      using A(2) by (simp add: divide_strict_right_mono)
    also have "\<dots> = 2 powi (a - b + 1)"
      by (simp add: power_int_add power_int_diff)
    finally show ?thesis .
  qed
  show ?thesis
  proof (cases "x < 2 powi (a - b)")
    case True
    then have "floorLog2 x = a - b - 1"
      by (simp add: floorLog2_def pq a_def b_def Let_def)
    with lo True show ?thesis by simp
  next
    case False
    then have "floorLog2 x = a - b"
      by (simp add: floorLog2_def pq a_def b_def Let_def)
    with hi False show ?thesis by simp
  qed
qed

lemma floorLog2_eqI:
  assumes "(2::rat) powi e \<le> x" "x < 2 powi (e + 1)"
  shows "floorLog2 x = e"
proof -
  have "0 < x" using assms(1) by (rule less_le_trans [rotated]) simp
  from floorLog2_bounds [OF this] assms show ?thesis
    by (intro floorLog2_unique [of "floorLog2 x" x e]) simp_all
qed


lemma toDouble_normal:
  assumes "x \<noteq> 0" "2 powi e \<le> \<bar>x\<bar>" "\<bar>x\<bar> < 2 powi (e + 1)" "- 1022 \<le> e" "e \<le> 1022"
  shows "toDouble x = Inr (sgn x * of_int (roundHalfEven (\<bar>x\<bar> / 2 powi (e - 52))) * 2 powi (e - 52))"
proof -
  have "floorLog2 \<bar>x\<bar> = e"
    using assms(2,3) by (rule floorLog2_eqI)
  then show ?thesis
    using assms(1,4,5) by (simp add: toDouble_def Let_def max_def)
qed

lemma roundHalfEven_of_int [simp]: "roundHalfEven (of_int k) = k"
  by (simp add: roundHalfEven_def)

lemma roundHalfEven_numeral [simp]: "roundHalfEven (numeral k) = numeral k"
  using roundHalfEven_of_int [of "numeral k"] by simp

lemma roundHalfEven_nonneg: "0 \<le> r \<Longrightarrow> 0 \<le> roundHalfEven r"
  by (auto simp: roundHalfEven_def Let_def)

lemma toDouble_sign:
  assumes "toDouble x = Inr r"
  shows "(0 \<le> x \<longrightarrow> 0 \<le> r) \<and> (x \<le> 0 \<longrightarrow> r \<le> 0)"
proof (cases "x = 0")
  case True
  with assms show ?thesis by (simp add: toDouble_def)
next
  case False
  define e where "e = max (floorLog2 \<bar>x\<bar>) (- 1022)"
  define m where "m = roundHalfEven (\<bar>x\<bar> / 2 powi (e - 52))"
  have m: "0 \<le> m"
    unfolding m_def by (rule roundHalfEven_nonneg) simp
  from assms False have r: "r = sgn x * of_int m * 2 powi (e - 52)"
    by (simp add: toDouble_def Let_def e_def m_def split: if_splits)
  have p: "(0::rat) \<le> of_int m * 2 powi (e - 52)"
    using m by simp
  show ?thesis
  proof (cases "0 < x")
    case True
    with p show ?thesis by (simp add: r)
  next
    case False
    with \<open>x \<noteq> 0\<close> have "x < 0" by simp
    with p show ?thesis by (simp add: r mult.assoc mult_nonneg_nonneg)
  qed
qed

text \<open>A multiple of \<open>2\<^sup>-\<^sup>s\<close> with a numerator of at most 53 bits is a binary64 value.\<close>

lemma round_grid:
  assumes "1 \<le> a" "a \<le> 9007199254740992"
  shows "(of_int (roundHalfEven (of_int a / 2 powi (ilog2 a - 52))) :: rat) * 2 powi (ilog2 a - 52)
           = of_int a"
proof -
  define e where "e = ilog2 a"
  from ilog2_bounds [OF assms(1)] have b: "0 \<le> e" "2 ^ nat e \<le> a" "a < 2 * 2 ^ nat e"
    by (simp_all add: e_def)
  have lo: "(2::rat) powi e \<le> of_int a"
  proof -
    have "(of_int (2 ^ nat e) :: rat) \<le> of_int a" using b(2) by (simp only: of_int_le_iff)
    then show ?thesis by (simp add: powi_nat b(1))
  qed
  have e53: "e \<le> 53"
  proof (rule ccontr)
    assume "\<not> e \<le> 53"
    then have "54 \<le> e" by simp
    then have "(2::rat) powi 54 \<le> 2 powi e" by (rule powi_mono)
    with lo have "(2::rat) powi 54 \<le> of_int a" by simp
    moreover have "(of_int a :: rat) \<le> of_int 9007199254740992"
      using assms(2) by (simp only: of_int_le_iff)
    ultimately show False by simp
  qed
  have "(of_int (roundHalfEven (of_int a / 2 powi (e - 52))) :: rat) * 2 powi (e - 52) = of_int a"
  proof (cases "e \<le> 52")
    case True
    define k where "k = nat (52 - e)"
    have pk: "(2::rat) powi (e - 52) = 1 / 2 ^ k"
      using True by (simp add: power_int_def k_def field_simps)
    have "(of_int a :: rat) / 2 powi (e - 52) = of_int (a * 2 ^ k)"
      by (simp add: pk)
    then have "roundHalfEven (of_int a / 2 powi (e - 52)) = a * 2 ^ k"
      by (simp only: roundHalfEven_of_int)
    then show ?thesis
      by (simp add: pk)
  next
    case False
    with e53 have e: "e = 53" by simp
    have "(2::rat) powi 53 \<le> of_int a" using lo by (simp add: e)
    then have "(of_int 9007199254740992 :: rat) \<le> of_int a" by simp
    then have "9007199254740992 \<le> a" by (simp only: of_int_le_iff)
    with assms(2) have "a = 9007199254740992" by simp
    then show ?thesis by (simp add: e)
  qed
  then show ?thesis by (simp add: e_def)
qed

lemma ilog2_le_53:
  assumes "1 \<le> a" "a \<le> 9007199254740992"
  shows "ilog2 a \<le> 53"
proof (rule ccontr)
  assume "\<not> ilog2 a \<le> 53"
  then have "54 \<le> ilog2 a" by simp
  then have "nat 54 \<le> nat (ilog2 a)" by simp
  then have "(2::int) ^ nat 54 \<le> 2 ^ nat (ilog2 a)"
    by (intro power_increasing) simp_all
  with ilog2_bounds [OF assms(1)] have "(2::int) ^ nat 54 \<le> a" by simp
  with assms(2) show False by simp
qed

lemma toDouble_grid:
  assumes "\<bar>n\<bar> \<le> 9007199254740992" "s \<le> 1022"
  shows "toDouble (of_int n / 2 ^ s) = Inr (of_int n / 2 ^ s)"
proof (cases "n = 0")
  case True
  then show ?thesis by (simp add: toDouble_def)
next
  case False
  define a where "a = \<bar>n\<bar>"
  have a1: "1 \<le> a" using False by (simp add: a_def)
  have a53: "a \<le> 9007199254740992" using assms(1) by (simp add: a_def)
  define e0 where "e0 = ilog2 a"
  define e where "e = e0 - int s"
  define x :: rat where "x = of_int n / 2 ^ s"
  from ilog2_bounds [OF a1] have b: "0 \<le> e0" "2 ^ nat e0 \<le> a" "a < 2 * 2 ^ nat e0"
    by (simp_all add: e0_def)
  have e53: "e0 \<le> 53" unfolding e0_def using a1 a53 by (rule ilog2_le_53)
  have ps: "(2::rat) powi int s = 2 ^ s" by (simp add: power_int_def)
  have pe: "(2::rat) powi e = 2 powi e0 / 2 ^ s"
  proof -
    have "(2::rat) powi (e0 - int s) = 2 powi e0 / 2 powi int s" by (rule power_int_diff) simp
    then show ?thesis by (simp only: ps e_def)
  qed
  have pe52: "(2::rat) powi (e - 52) = 2 powi (e0 - 52) / 2 ^ s"
  proof -
    have "e - 52 = (e0 - 52) - int s" by (simp add: e_def)
    then have "(2::rat) powi (e - 52) = 2 powi ((e0 - 52) - int s)" by (simp only:)
    also have "\<dots> = 2 powi (e0 - 52) / 2 powi int s" by (rule power_int_diff) simp
    finally show ?thesis by (simp only: ps)
  qed
  have ax: "\<bar>x\<bar> = of_int a / 2 ^ s" by (simp add: x_def a_def)
  have lo0: "(2::rat) powi e0 \<le> of_int a"
  proof -
    have "(of_int (2 ^ nat e0) :: rat) \<le> of_int a" using b(2) by (simp only: of_int_le_iff)
    then show ?thesis by (simp add: powi_nat b(1))
  qed
  have hi0: "(of_int a :: rat) < 2 powi (e0 + 1)"
  proof -
    have "(of_int a :: rat) < of_int (2 * 2 ^ nat e0)" using b(3) by (simp only: of_int_less_iff)
    then show ?thesis by (simp add: powi_nat b(1) powi_Suc)
  qed
  have lo: "(2::rat) powi e \<le> \<bar>x\<bar>"
    unfolding ax pe using lo0 by (simp add: divide_right_mono)
  have hi: "\<bar>x\<bar> < (2::rat) powi (e + 1)"
  proof -
    have "(2::rat) powi (e + 1) = 2 powi (e0 + 1) / 2 ^ s"
    proof -
      have "e + 1 = (e0 + 1) - int s" by (simp add: e_def)
      then have "(2::rat) powi (e + 1) = 2 powi ((e0 + 1) - int s)" by (simp only:)
      also have "\<dots> = 2 powi (e0 + 1) / 2 powi int s" by (rule power_int_diff) simp
      finally show ?thesis by (simp only: ps)
    qed
    then show ?thesis
      unfolding ax using hi0 by (simp add: divide_strict_right_mono)
  qed
  have x0: "x \<noteq> 0" using False by (simp add: x_def)
  have r1: "- 1022 \<le> e" using b(1) assms(2) by (simp add: e_def)
  have r2: "e \<le> 1022" using e53 by (simp add: e_def)
  have q: "\<bar>x\<bar> / 2 powi (e - 52) = of_int a / 2 powi (e0 - 52)"
    by (simp add: ax pe52)
  from round_grid [OF a1 a53]
  have ex: "(of_int (roundHalfEven (of_int a / 2 powi (e0 - 52))) :: rat) * 2 powi (e0 - 52) = of_int a"
    by (simp add: e0_def)
  define m where "m = roundHalfEven (of_int a / 2 powi (e0 - 52))"
  have ex': "(of_int m :: rat) * 2 powi (e0 - 52) = of_int a"
    using ex by (simp add: m_def)
  have "toDouble x = Inr (sgn x * of_int m * 2 powi (e - 52))"
    using toDouble_normal [OF x0 lo hi r1 r2] by (simp only: q m_def)
  also have "sgn x * of_int m * 2 powi (e - 52) = sgn x * (of_int m * 2 powi (e0 - 52)) / 2 ^ s"
    by (simp add: pe52)
  also have "\<dots> = sgn x * of_int a / 2 ^ s"
    by (simp only: ex')
  also have "\<dots> = x"
  proof -
    have "sgn x = sgn (of_int n :: rat)"
      by (simp add: x_def sgn_if zero_less_divide_iff)
    moreover have "sgn (of_int n :: rat) * of_int a = of_int n"
      by (simp add: a_def sgn_if)
    ultimately show ?thesis by (simp add: x_def)
  qed
  finally show ?thesis by (simp add: x_def)
qed

lemma toDouble_of_int:
  assumes "\<bar>n\<bar> \<le> 9007199254740992"
  shows "toDouble (of_int n) = Inr (of_int n)"
  using toDouble_grid [OF assms, of 0] by simp

lemma iadd_exact: "\<bar>a + b\<bar> \<le> 9007199254740992 \<Longrightarrow> iadd a b = Inr (a + b)"
  unfolding iadd_def by (simp only: toDouble_of_int bindF_def sum.case floor_of_int)

lemma isub_exact: "\<bar>a - b\<bar> \<le> 9007199254740992 \<Longrightarrow> isub a b = Inr (a - b)"
  unfolding isub_def by (simp only: toDouble_of_int bindF_def sum.case floor_of_int)

lemma iadd_nonneg:
  assumes "iadd a b = Inr c" "0 \<le> a" "0 \<le> b"
  shows "0 \<le> c"
proof -
  from assms(1) obtain r where r: "toDouble (of_int (a + b)) = Inr r" and c: "c = \<lfloor>r\<rfloor>"
    by (auto simp: iadd_def bindF_def split: sum.splits)
  have "(0::rat) \<le> of_int (a + b)" using assms(2,3) by simp
  with toDouble_sign [OF r] have "0 \<le> r" by blast
  then show ?thesis by (simp add: c)
qed

text \<open>No operation on numbers divides by zero unless its divisor is zero, and none throws.\<close>

lemma toDouble_fault: "toDouble x = Inl e \<Longrightarrow> e = NotFinite"
  by (simp add: toDouble_def Let_def split: if_splits)

lemma iadd_fault: "iadd a b = Inl e \<Longrightarrow> e = NotFinite"
  by (auto simp: iadd_def bindF_def split: sum.splits dest: toDouble_fault)

lemma isub_fault: "isub a b = Inl e \<Longrightarrow> e = NotFinite"
  by (auto simp: isub_def bindF_def split: sum.splits dest: toDouble_fault)

lemma fadd_fault: "fadd a b = Inl e \<Longrightarrow> e = NotFinite"
  by (auto simp: fadd_def dest: toDouble_fault)

lemma fmul_fault: "fmul a b = Inl e \<Longrightarrow> e = NotFinite"
  by (auto simp: fmul_def dest: toDouble_fault)

lemma fdiv_fault: "fdiv a b = Inl e \<Longrightarrow> b \<noteq> 0 \<Longrightarrow> e = NotFinite"
  by (auto simp: fdiv_def dest: toDouble_fault)

lemma bindF_Inr [simp]: "bindF (Inr v) f = f v"
  by (simp add: bindF_def)

lemma bindF_Inl [simp]: "bindF (Inl e) f = Inl e"
  by (simp add: bindF_def)

lemma bindF_eq_Inr: "bindF x f = Inr y \<longleftrightarrow> (\<exists>v. x = Inr v \<and> f v = Inr y)"
  by (cases x) simp_all

lemma bindF_eq_Inl: "bindF x f = Inl e \<longleftrightarrow> x = Inl e \<or> (\<exists>v. x = Inr v \<and> f v = Inl e)"
  by (cases x) simp_all

lemma reduceF_Nil [simp]: "reduceF f z [] = Inr z"
  by (simp add: reduceF_def)

lemma foldl_bindF_Inl: "foldl (\<lambda>acc x. bindF acc (\<lambda>a. f a x)) (Inl e) xs = Inl e"
  by (induction xs) simp_all

lemma reduceF_Cons: "reduceF f z (x # xs) = bindF (f z x) (\<lambda>a. reduceF f a xs)"
proof (cases "f z x")
  case (Inl e)
  then show ?thesis by (simp add: reduceF_def foldl_bindF_Inl)
next
  case (Inr a)
  then show ?thesis by (simp add: reduceF_def)
qed

lemma reduceF_fault:
  assumes "\<And>a x e. f a x = Inl e \<Longrightarrow> e = NotFinite" "reduceF f z xs = Inl e"
  shows "e = NotFinite"
  using assms(2)
proof (induction xs arbitrary: z)
  case Nil
  then show ?case by simp
next
  case (Cons x xs)
  then show ?case
    by (auto simp: reduceF_Cons bindF_eq_Inl dest: assms(1))
qed

lemma collect_eq_Inr: "collect rs = Inr xs \<longleftrightarrow> rs = map Inr xs"
proof (induction rs arbitrary: xs)
  case Nil
  then show ?case by auto
next
  case (Cons r rs)
  show ?case
  proof (cases r)
    case (Inl e)
    then show ?thesis by auto
  next
    case (Inr x)
    show ?thesis
    proof (cases "collect rs")
      case (Inl e)
      with Cons [of "tl xs"] Inr show ?thesis by (cases xs) auto
    next
      case r: (Inr ys)
      with Cons [of ys] Cons [of "tl xs"] Inr show ?thesis by (cases xs) auto
    qed
  qed
qed

lemma collect_eq_Inl: "collect rs = Inl e \<Longrightarrow> Inl e \<in> set rs"
proof (induction rs)
  case Nil
  then show ?case by simp
next
  case (Cons r rs)
  then show ?case
    by (cases r) (auto split: sum.splits)
qed

text \<open>Evaluation on numerals.\<close>

lemma floor_rat_numeral [simp]:
  "\<lfloor>(numeral a :: rat) / numeral b\<rfloor> = numeral a div numeral b"
  using floor_divide_of_int_eq [of "numeral a" "numeral b", where ?'a = rat] by simp

lemma floor_rat_neg_numeral [simp]:
  "\<lfloor>- ((numeral a :: rat) / numeral b)\<rfloor> = - numeral a div numeral b"
  using floor_divide_of_int_eq [of "- numeral a" "numeral b", where ?'a = rat] by simp

lemma ceiling_rat_numeral [simp]:
  "\<lceil>(numeral a :: rat) / numeral b\<rceil> = - (- numeral a div numeral b)"
  by (simp add: ceiling_def)

lemma ceiling_rat_neg_numeral [simp]:
  "\<lceil>- ((numeral a :: rat) / numeral b)\<rceil> = - (numeral a div numeral b)"
  by (simp add: ceiling_def)

lemma toDouble_0 [simp]: "toDouble 0 = Inr 0"
  by (simp add: toDouble_def)

lemma toDouble_1 [simp]: "toDouble 1 = Inr 1"
  using toDouble_of_int [of 1] by simp

lemma toDouble_numeral:
  "numeral k \<le> (9007199254740992::int) \<Longrightarrow> toDouble (numeral k) = Inr (numeral k)"
  using toDouble_of_int [of "numeral k"] by simp

lemma toDouble_neg_numeral:
  "numeral k \<le> (9007199254740992::int) \<Longrightarrow> toDouble (- numeral k) = Inr (- numeral k)"
  using toDouble_of_int [of "- numeral k"] by simp

section \<open>Properties of the period filter\<close>

lemma periodDays_cases:
  "period = PAll \<and> periodDays period = None \<or>
   period \<noteq> PAll \<and> (\<exists>d. periodDays period = Some d \<and> d \<in> {7, 30, 90})"
  by (cases period) (simp_all add: periodDays_def)

lemma filterByPeriod_All [simp]: "filterByPeriod h now movements PAll = movements"
  by (simp add: filterByPeriod_def)

lemma filterByPeriod_eq_filter:
  "period \<noteq> PAll \<Longrightarrow>
     filterByPeriod h now movements period =
       filter (\<lambda>m. notBefore (parseDate h (createdAt m))
                     (cutoffOf h now (the (periodDays period)))) movements"
  by (cases period) (simp_all add: filterByPeriod_def periodDays_def Let_def)

lemma notBefore_iff:
  "notBefore t c \<longleftrightarrow> (\<exists>a b. t = Some a \<and> c = Some b \<and> b \<le> a)"
  by (auto simp: notBefore_def split: option.splits)

lemma filter_filter_absorb:
  assumes "\<And>x. x \<in> set xs \<Longrightarrow> P x \<Longrightarrow> Q x"
  shows "filter Q (filter P xs) = filter P xs" "filter P (filter Q xs) = filter P xs"
  using assms by (induction xs) auto

lemma filterByPeriod_same_reading:
  "filterByPeriod h now (filterByPeriod h now movements period) period
     = filterByPeriod h now movements period"
  by (cases "period = PAll") (simp_all add: filterByPeriod_eq_filter)

lemma filterByPeriod_later_reading:
  assumes "period \<noteq> PAll"
    and "cutoffOf h n2 (the (periodDays period)) = None \<or>
         (\<exists>a b. cutoffOf h n1 (the (periodDays period)) = Some a \<and>
                cutoffOf h n2 (the (periodDays period)) = Some b \<and> a \<le> b)"
  shows "filterByPeriod h n2 (filterByPeriod h n1 movements period) period
           = filterByPeriod h n2 movements period"
proof -
  have "notBefore t (cutoffOf h n2 (the (periodDays period)))
          \<Longrightarrow> notBefore t (cutoffOf h n1 (the (periodDays period)))" for t
    using assms(2) by (auto simp: notBefore_iff)
  then show ?thesis
    unfolding filterByPeriod_eq_filter [OF assms(1)]
    by (intro filter_filter_absorb(2)) blast
qed

lemma cutoff_order:
  assumes off: "\<forall>l. \<bar>utcTime h l - l\<bar> \<le> msPerDay"
    and v: "cutoffOf h now 90 \<noteq> None"
    and d: "d1 \<in> {7, 30, 90}" "d2 \<in> {7, 30, 90}" "d1 \<le> d2"
    and c1: "cutoffOf h now d1 = Some a"
  shows "\<exists>b. cutoffOf h now d2 = Some b \<and> b \<le> a"
proof -
  define L where "L = localTime h now"
  define r where "r = (\<lambda>d. utcTime h (L - d * msPerDay))"
  have mono: "r e2 \<le> r e1" if "e1 \<in> {7, 30, 90}" "e2 \<in> {7, 30, 90}" "e1 \<le> e2" for e1 e2
  proof (cases "e1 = e2")
    case True
    then show ?thesis by simp
  next
    case False
    with that have g: "e1 + 2 \<le> e2" by auto
    have "r e2 \<le> (L - e2 * msPerDay) + msPerDay"
      using off [rule_format, of "L - e2 * msPerDay"] by (simp add: r_def abs_le_iff)
    also have "\<dots> \<le> (L - e1 * msPerDay) - msPerDay"
      using g by (simp add: msPerDay_def)
    also have "\<dots> \<le> r e1"
      using off [rule_format, of "L - e1 * msPerDay"] by (simp add: r_def abs_le_iff)
    finally show ?thesis .
  qed
  have c: "cutoffOf h now e = TimeClip (r e)" for e
    by (simp add: cutoffOf_def r_def L_def)
  from v have v90: "- 8640000000000000 \<le> r 90"
    by (simp add: c TimeClip_def abs_le_iff split: if_splits)
  from c1 have a: "a = r d1" "r d1 \<le> 8640000000000000"
    by (simp_all add: c TimeClip_def abs_le_iff split: if_splits)
  have "r 90 \<le> r d2" using d(2) by (intro mono) auto
  moreover have "r d2 \<le> r d1" using d by (intro mono) auto
  ultimately have "\<bar>r d2\<bar> \<le> 8640000000000000" using v90 a(2) by (simp add: abs_le_iff)
  then have "cutoffOf h now d2 = Some (r d2)" by (simp add: c TimeClip_def)
  with \<open>r d2 \<le> r d1\<close> show ?thesis by (simp add: a(1))
qed

lemma filterByPeriod_wider:
  assumes off: "\<forall>l. \<bar>utcTime h l - l\<bar> \<le> msPerDay"
    and v: "cutoffOf h now 90 \<noteq> None"
    and w: "widerOrSame q p"
  shows "filterByPeriod h now (filterByPeriod h now movements p) q = filterByPeriod h now movements p"
    and "filterByPeriod h now (filterByPeriod h now movements q) p = filterByPeriod h now movements p"
    and "set (filterByPeriod h now movements p) \<subseteq> set (filterByPeriod h now movements q)"
proof -
  have imp: "notBefore t (cutoffOf h now (the (periodDays q)))"
    if "q \<noteq> PAll" "notBefore t (cutoffOf h now (the (periodDays p)))" for t
  proof -
    from that(1) w have p: "p \<noteq> PAll" and le: "the (periodDays p) \<le> the (periodDays q)"
      by (simp_all add: widerOrSame_def)
    from periodDays_cases [of p] p obtain d1 where d1: "periodDays p = Some d1" "d1 \<in> {7, 30, 90}"
      by auto
    from periodDays_cases [of q] that(1) obtain d2 where d2: "periodDays q = Some d2" "d2 \<in> {7, 30, 90}"
      by auto
    from that(2) obtain x a where x: "t = Some x" "cutoffOf h now d1 = Some a" "a \<le> x"
      by (auto simp: notBefore_iff d1)
    from cutoff_order [OF off v d1(2) d2(2) _ x(2)] le obtain b
      where "cutoffOf h now d2 = Some b" "b \<le> a" by (auto simp: d1 d2)
    with x show ?thesis by (auto simp: notBefore_iff d2)
  qed
  show "filterByPeriod h now (filterByPeriod h now movements p) q = filterByPeriod h now movements p"
  proof (cases "q = PAll")
    case True
    then show ?thesis by simp
  next
    case False
    with w have p: "p \<noteq> PAll" by (simp add: widerOrSame_def)
    show ?thesis
      unfolding filterByPeriod_eq_filter [OF p] filterByPeriod_eq_filter [OF False]
      by (intro filter_filter_absorb(1) imp [OF False])
  qed
  show "filterByPeriod h now (filterByPeriod h now movements q) p = filterByPeriod h now movements p"
  proof (cases "q = PAll")
    case True
    then show ?thesis by simp
  next
    case False
    with w have p: "p \<noteq> PAll" by (simp add: widerOrSame_def)
    show ?thesis
      unfolding filterByPeriod_eq_filter [OF p] filterByPeriod_eq_filter [OF False]
      by (intro filter_filter_absorb(2) imp [OF False])
  qed
  show "set (filterByPeriod h now movements p) \<subseteq> set (filterByPeriod h now movements q)"
  proof (cases "q = PAll")
    case True
    show ?thesis
    proof (cases "p = PAll")
      case True
      with \<open>q = PAll\<close> show ?thesis by simp
    next
      case False
      with True show ?thesis by (auto simp: filterByPeriod_eq_filter)
    qed
  next
    case False
    with w have p: "p \<noteq> PAll" by (simp add: widerOrSame_def)
    show ?thesis
      unfolding filterByPeriod_eq_filter [OF p] filterByPeriod_eq_filter [OF False]
      using imp [OF False] by auto
  qed
qed

lemma ReportsScreen_clock:
  assumes "filterByPeriod h n1 movements period = filterByPeriod h n2 movements period"
  shows "ReportsScreen h n1 movements products categories period selectedProductIds
           = ReportsScreen h n2 movements products categories period selectedProductIds"
  unfolding ReportsScreen_def filtered_def assms ..

text \<open>
  \<^bold>\<open>C7.\<close> A call of \<^verbatim>\<open>filterByPeriod\<close> reads the clock, so the two calls of a
  repeated filtering have two readings. With one reading for both, filtering twice with
  the same period gives what filtering once gives. With a second reading whose cutoff is
  not before the first one's, or is an invalid date, filtering the earlier result again
  gives what filtering the original list at the second reading gives. On a host whose
  local time is within a day of UTC, at a reading whose 90-day cutoff is a valid date,
  filtering with the same or a wider period, before or after, leaves the result of the
  narrower one, and the results for 7, 30 and 90 days and for \<^verbatim>\<open>all\<close> are each
  contained in the next. \<^verbatim>\<open>all\<close> keeps every movement. An \<open>N\<close>-day period keeps a
  movement exactly if its date is valid, the cutoff is valid and the date is at or after
  the cutoff, which is the reading moved back by \<open>N\<close> days in local time.
\<close>

theorem filterByPeriod_algebra:
  "filterByPeriod h now (filterByPeriod h now M p) p = filterByPeriod h now M p \<and>
   (p \<noteq> PAll \<and>
    (cutoffOf h n2 (the (periodDays p)) = None \<or>
     (\<exists>a b. cutoffOf h n1 (the (periodDays p)) = Some a \<and>
            cutoffOf h n2 (the (periodDays p)) = Some b \<and> a \<le> b))
    \<longrightarrow> filterByPeriod h n2 (filterByPeriod h n1 M p) p = filterByPeriod h n2 M p) \<and>
   ((\<forall>l. \<bar>utcTime h l - l\<bar> \<le> msPerDay) \<and> cutoffOf h now 90 \<noteq> None
    \<longrightarrow> (widerOrSame q p \<longrightarrow>
           filterByPeriod h now (filterByPeriod h now M p) q = filterByPeriod h now M p \<and>
           filterByPeriod h now (filterByPeriod h now M q) p = filterByPeriod h now M p) \<and>
        set (filterByPeriod h now M P7d) \<subseteq> set (filterByPeriod h now M P30d) \<and>
        set (filterByPeriod h now M P30d) \<subseteq> set (filterByPeriod h now M P90d) \<and>
        set (filterByPeriod h now M P90d) \<subseteq> set (filterByPeriod h now M PAll)) \<and>
   filterByPeriod h now M PAll = M \<and>
   (p \<noteq> PAll \<longrightarrow>
     (m \<in> set (filterByPeriod h now M p) \<longleftrightarrow>
        m \<in> set M \<and>
        (\<exists>t c. parseDate h (createdAt m) = Some t \<and>
               TimeClip (utcTime h (localTime h now - the (periodDays p) * msPerDay)) = Some c \<and>
               c \<le> t)))"
proof (intro conjI impI)
  show "filterByPeriod h now (filterByPeriod h now M p) p = filterByPeriod h now M p"
    by (rule filterByPeriod_same_reading)
next
  assume "p \<noteq> PAll \<and>
    (cutoffOf h n2 (the (periodDays p)) = None \<or>
     (\<exists>a b. cutoffOf h n1 (the (periodDays p)) = Some a \<and>
            cutoffOf h n2 (the (periodDays p)) = Some b \<and> a \<le> b))"
  then show "filterByPeriod h n2 (filterByPeriod h n1 M p) p = filterByPeriod h n2 M p"
    using filterByPeriod_later_reading [of p h n2 n1 M] by blast
next
  assume a: "(\<forall>l. \<bar>utcTime h l - l\<bar> \<le> msPerDay) \<and> cutoffOf h now 90 \<noteq> None"
  then have off: "\<forall>l. \<bar>utcTime h l - l\<bar> \<le> msPerDay" and v: "cutoffOf h now 90 \<noteq> None"
    by simp_all
  {
    assume w: "widerOrSame q p"
    show "filterByPeriod h now (filterByPeriod h now M p) q = filterByPeriod h now M p"
      by (rule filterByPeriod_wider(1) [OF off v w])
    show "filterByPeriod h now (filterByPeriod h now M q) p = filterByPeriod h now M p"
      by (rule filterByPeriod_wider(2) [OF off v w])
  }
  show "set (filterByPeriod h now M P7d) \<subseteq> set (filterByPeriod h now M P30d)"
    by (rule filterByPeriod_wider(3) [OF off v]) (simp add: widerOrSame_def periodDays_def)
  show "set (filterByPeriod h now M P30d) \<subseteq> set (filterByPeriod h now M P90d)"
    by (rule filterByPeriod_wider(3) [OF off v]) (simp add: widerOrSame_def periodDays_def)
  show "set (filterByPeriod h now M P90d) \<subseteq> set (filterByPeriod h now M PAll)"
    by (rule filterByPeriod_wider(3) [OF off v]) (simp add: widerOrSame_def periodDays_def)
next
  show "filterByPeriod h now M PAll = M" by simp
next
  assume "p \<noteq> PAll"
  then show "m \<in> set (filterByPeriod h now M p) \<longleftrightarrow>
        m \<in> set M \<and>
        (\<exists>t c. parseDate h (createdAt m) = Some t \<and>
               TimeClip (utcTime h (localTime h now - the (periodDays p) * msPerDay)) = Some c \<and>
               c \<le> t)"
    by (simp add: filterByPeriod_eq_filter notBefore_iff cutoffOf_def)
qed

text \<open>
  A reading of 2026-11-02 17:00 UTC on a host in UTC and five movements: one on the 7-day
  cutoff, one a millisecond before it, one 13 days old, one 32 days old and one with a
  text that is no date.
\<close>

lemma knownDates_eval:
  "map_of knownDates ''2026-10-01T00:00:00.000Z'' = Some 1790812800000"
  "map_of knownDates ''2026-10-03T12:00:00.000Z'' = Some 1791028800000"
  "map_of knownDates ''2026-10-20T08:00:00.000Z'' = Some 1792483200000"
  "map_of knownDates ''2026-10-26T16:30:00.000Z'' = Some 1793032200000"
  "map_of knownDates ''2026-10-26T16:59:59.999Z'' = Some 1793033999999"
  "map_of knownDates ''2026-10-26T17:00:00.000Z'' = Some 1793034000000"
  "map_of knownDates ''+010000-01-01T00:00:00.000Z'' = Some 253402300800000"
  "map_of knownDates ''yesterday'' = None"
  by (simp_all add: knownDates_def)

lemma window_eval:
  "filterByPeriod utcHost 1793638800000 windowMovements P7d = take 1 windowMovements"
  "filterByPeriod utcHost 1793638800000 windowMovements P30d = take 3 windowMovements"
  "filterByPeriod utcHost 1793638800000 windowMovements P90d = take 4 windowMovements"
  by (simp_all add: filterByPeriod_def cutoffOf_def TimeClip_def msPerDay_def notBefore_def
      utcHost_def windowMovements_def mkMovement_def knownDates_eval Let_def)

theorem filterByPeriod_algebra_witness:
  "filterByPeriod utcHost 1793638800000 windowMovements P7d = take 1 windowMovements \<and>
   filterByPeriod utcHost 1793638800000 windowMovements P30d = take 3 windowMovements \<and>
   filterByPeriod utcHost 1793638800000 windowMovements P90d = take 4 windowMovements \<and>
   filterByPeriod utcHost 1793638800000 windowMovements PAll = windowMovements \<and>
   filterByPeriod utcHost 1793638800000
     (filterByPeriod utcHost 1793638800000 windowMovements P7d) P30d = take 1 windowMovements \<and>
   filterByPeriod utcHost 1793638800000
     (filterByPeriod utcHost 1793638800000 windowMovements P30d) P7d = take 1 windowMovements \<and>
   filterByPeriod utcHost 1793638800001
     (filterByPeriod utcHost 1793638800000 windowMovements P7d) P7d =
       filterByPeriod utcHost 1793638800001 windowMovements P7d \<and>
   hd windowMovements \<in> set (filterByPeriod utcHost 1793638800000 windowMovements P7d) \<and>
   createdAt (hd windowMovements) = ''2026-10-26T17:00:00.000Z'' \<and>
   cutoffOf utcHost 1793638800000 7 = Some 1793034000000"
  using filterByPeriod_algebra [of utcHost 1793638800000 windowMovements P7d 1793638800001
      1793638800000 P30d "hd windowMovements"]
  by (simp add: window_eval widerOrSame_def periodDays_def)
     (simp add: cutoffOf_def TimeClip_def msPerDay_def utcHost_def windowMovements_def
        mkMovement_def)

text \<open>
  The same period twice, the second call one millisecond after the first: the movement on
  the cutoff of the first reading is kept by the first call and dropped by the second.
\<close>

theorem refilter_later_counterexample:
  "filterByPeriod utcHost 1793638800000 [onTheCutoff] P7d = [onTheCutoff] \<and>
   filterByPeriod utcHost 1793638800001
     (filterByPeriod utcHost 1793638800000 [onTheCutoff] P7d) P7d = []"
  by (simp add: filterByPeriod_def cutoffOf_def TimeClip_def msPerDay_def notBefore_def
      utcHost_def onTheCutoff_def mkMovement_def knownDates_eval Let_def)

text \<open>
  \<^bold>\<open>C3.\<close> The report is a function of the movements, the products, the categories, the
  period, the selected product ids, the host and the time value that \<^verbatim>\<open>filterByPeriod\<close>
  reads from the clock. For the period \<^verbatim>\<open>all\<close> the reading does not matter. For an
  \<open>N\<close>-day period two readings give the same filtered list and the same report whenever
  every movement is on the same side of the two cutoffs, each cutoff being its reading
  moved back by \<open>N\<close> days in the local time of the host.
\<close>

theorem report_depends_on_clock_through_cutoff:
  "ReportsScreen h n1 M products categories PAll sel
     = ReportsScreen h n2 M products categories PAll sel \<and>
   (p \<noteq> PAll \<and>
    (\<forall>m \<in> set M. notBefore (parseDate h (createdAt m)) (cutoffOf h n1 (the (periodDays p)))
                  = notBefore (parseDate h (createdAt m)) (cutoffOf h n2 (the (periodDays p))))
    \<longrightarrow> filterByPeriod h n1 M p = filterByPeriod h n2 M p \<and>
        ReportsScreen h n1 M products categories p sel
          = ReportsScreen h n2 M products categories p sel)"
proof (intro conjI impI)
  show "ReportsScreen h n1 M products categories PAll sel
     = ReportsScreen h n2 M products categories PAll sel"
    by (rule ReportsScreen_clock) simp
next
  assume a: "p \<noteq> PAll \<and>
    (\<forall>m \<in> set M. notBefore (parseDate h (createdAt m)) (cutoffOf h n1 (the (periodDays p)))
                  = notBefore (parseDate h (createdAt m)) (cutoffOf h n2 (the (periodDays p))))"
  then show f: "filterByPeriod h n1 M p = filterByPeriod h n2 M p"
    by (simp add: filterByPeriod_eq_filter cong: filter_cong)
  show "ReportsScreen h n1 M products categories p sel
          = ReportsScreen h n2 M products categories p sel"
    using f by (rule ReportsScreen_clock)
qed

text \<open>
  New York, readings of 12:00 and 12:10 local time on 2026-11-02, after the end of
  daylight saving time. The 7-day cutoffs are 12:00 and 12:10 local time on 2026-10-26,
  which is 16:00 and 16:10 UTC, so a movement of 16:30 UTC is kept at both readings, and
  one with an invalid date is dropped at both.
\<close>

lemma parseDate_hosts:
  "parseDate utcHost = map_of knownDates" "parseDate newYork2026 = map_of knownDates"
  by (simp_all add: utcHost_def newYork2026_def)

lemma newYork_cutoffs:
  "cutoffOf newYork2026 1793638800000 7 = Some 1793030400000"
  "cutoffOf newYork2026 1793639400000 7 = Some 1793031000000"
  "cutoffOf newYork2026 1793642400000 7 = Some 1793034000000"
  by (simp_all add: cutoffOf_def TimeClip_def msPerDay_def newYork2026_def)

lemma utc_cutoffs:
  "cutoffOf utcHost 1793638800000 7 = Some 1793034000000"
  "cutoffOf utcHost 1793638800001 7 = Some 1793034000001"
  by (simp_all add: cutoffOf_def TimeClip_def msPerDay_def utcHost_def)

theorem report_depends_on_clock_through_cutoff_witness:
  "filterByPeriod newYork2026 1793638800000 [halfHourEarlier, last windowMovements] P7d
     = [halfHourEarlier] \<and>
   filterByPeriod newYork2026 1793639400000 [halfHourEarlier, last windowMovements] P7d
     = [halfHourEarlier] \<and>
   ReportsScreen newYork2026 1793638800000 [halfHourEarlier, last windowMovements]
       urgencyProducts oneCategory P7d []
     = ReportsScreen newYork2026 1793639400000 [halfHourEarlier, last windowMovements]
       urgencyProducts oneCategory P7d []"
  using report_depends_on_clock_through_cutoff [of newYork2026 1793638800000
      "[halfHourEarlier, last windowMovements]" urgencyProducts oneCategory "[]" 1793639400000 P7d]
  by (simp add: periodDays_def newYork_cutoffs notBefore_def halfHourEarlier_def
      windowMovements_def mkMovement_def parseDate_hosts knownDates_eval
      filterByPeriod_def Let_def)

text \<open>
  The same movements and period at two readings. In UTC, one millisecond apart: the
  movement on the first cutoff is kept, then dropped. In New York, 12:00 and 13:00 local
  time on 2026-11-02: the movement of 2026-10-26 16:30 UTC is kept at the first reading,
  whose cutoff is 16:00 UTC, and dropped at the second, whose cutoff is 17:00 UTC.
\<close>

theorem clock_read_inside_counterexample:
  "filterByPeriod utcHost 1793638800000 [onTheCutoff] P7d = [onTheCutoff] \<and>
   filterByPeriod utcHost 1793638800001 [onTheCutoff] P7d = [] \<and>
   filterByPeriod newYork2026 1793638800000 [halfHourEarlier] P7d = [halfHourEarlier] \<and>
   filterByPeriod newYork2026 1793642400000 [halfHourEarlier] P7d = []"
  by (simp add: filterByPeriod_def newYork_cutoffs utc_cutoffs notBefore_def halfHourEarlier_def
      onTheCutoff_def mkMovement_def parseDate_hosts knownDates_eval Let_def)

section \<open>The consumption analysis\<close>

lemma consumptionRow_Some:
  assumes "consumptionRow h period products categories (k, data) = Inr (Some e)"
  shows "\<exists>product actualDays.
           find (\<lambda>p. p_id p = k) products = Some product \<and>
           ce_product e = product \<and>
           ce_category e = find (\<lambda>c. c_id c = categoryId product) categories \<and>
           totalConsumed e = total data \<and>
           movCount e = length (dates data) \<and>
           (case periodDays period of Some d \<Rightarrow> Inr d | None \<Rightarrow> daySpan h (dates data))
             = Inr actualDays \<and>
           fdiv (of_int (total data)) (of_int (max actualDays 1)) = Inr (dailyAvg e) \<and>
           fmul (dailyAvg e) 30 = Inr (monthlyProjection e) \<and>
           (if dailyAvg e > 0
            then bindF (fdiv (of_int (p_quantity product)) (dailyAvg e))
                   (\<lambda>r. Inr (Some (Math_round r)))
            else Inr None) = Inr (daysUntilEmpty e) \<and>
           status e = statusOf (daysUntilEmpty e) \<and>
           fmul (monthlyProjection e) (price product) = Inr (costProjection e)"
proof (cases "find (\<lambda>p. p_id p = k) products")
  case None
  with assms show ?thesis by (simp add: consumptionRow_def)
next
  case (Some product)
  from assms obtain actualDays dAvg mProj dte cost where
    a: "(case periodDays period of Some d \<Rightarrow> Inr d | None \<Rightarrow> daySpan h (dates data)) = Inr actualDays"
    and b: "fdiv (of_int (total data)) (of_int (max actualDays 1)) = Inr dAvg"
    and c: "fmul dAvg 30 = Inr mProj"
    and d: "(if dAvg > 0 then bindF (fdiv (of_int (p_quantity product)) dAvg)
                   (\<lambda>r. Inr (Some (Math_round r))) else Inr None) = Inr dte"
    and f: "fmul mProj (price product) = Inr cost"
    and e: "e = \<lparr>ce_product = product,
                      ce_category = find (\<lambda>c. c_id c = categoryId product) categories,
                      totalConsumed = total data,
                      movCount = length (dates data),
                      dailyAvg = dAvg,
                      monthlyProjection = mProj,
                      daysUntilEmpty = dte,
                      status = statusOf dte,
                      costProjection = cost\<rparr>"
    unfolding consumptionRow_def Some prod.case option.case bindF_eq_Inr
    by (elim exE conjE) (simp del: of_int_max)
  show ?thesis
    using a b c d f by (simp add: Some e del: of_int_max split del: if_split cong: if_cong)
qed

lemma consumptionRow_None:
  "consumptionRow h period products categories (k, data) = Inr None
     \<longleftrightarrow> find (\<lambda>p. p_id p = k) products = None"
  by (cases "find (\<lambda>p. p_id p = k) products")
     (auto simp: consumptionRow_def bindF_eq_Inr)

lemma set_Object_entries: "set (Object_entries obj) = set obj"
  by (auto simp: Object_entries_def)

lemma set_map_filter_id: "set (List.map_filter (\<lambda>r. r) rs) = {e. Some e \<in> set rs}"
  by (force simp: List.map_filter_def image_iff)

lemma consumptionData_Inr:
  assumes "consumptionData h period exts products categories = Inr es"
  shows "\<exists>obj rows. exitsByProduct exts = Inr obj \<and>
           map (consumptionRow h period products categories) (Object_entries obj) = map Inr rows \<and>
           es = sort_key (\<lambda>e. - totalConsumed e) (List.map_filter (\<lambda>r. r) rows)"
  using assms unfolding consumptionData_def bindF_eq_Inr collect_eq_Inr by auto

lemma consumptionData_entry:
  assumes "consumptionData h period exts products categories = Inr es" "e \<in> set es"
  shows "\<exists>obj k data. exitsByProduct exts = Inr obj \<and> (k, data) \<in> set obj \<and>
           consumptionRow h period products categories (k, data) = Inr (Some e)"
proof -
  from consumptionData_Inr [OF assms(1)] obtain obj rows where
    obj: "exitsByProduct exts = Inr obj"
    and rows: "map (consumptionRow h period products categories) (Object_entries obj) = map Inr rows"
    and es: "es = sort_key (\<lambda>e. - totalConsumed e) (List.map_filter (\<lambda>r. r) rows)"
    by blast
  from assms(2) have "Some e \<in> set rows"
    by (simp add: es set_map_filter_id)
  then have "Inr (Some e) \<in> set (map (consumptionRow h period products categories) (Object_entries obj))"
    unfolding rows by simp
  then obtain kv where "kv \<in> set obj" "consumptionRow h period products categories kv = Inr (Some e)"
    by (auto simp: set_Object_entries)
  with obj show ?thesis by (cases kv) auto
qed

lemma statusOf_iff:
  "(statusOf d = Critical \<longleftrightarrow> d \<noteq> None \<and> the d \<le> 7) \<and>
   (statusOf d = Warning \<longleftrightarrow> d \<noteq> None \<and> 7 < the d \<and> the d \<le> 30) \<and>
   (statusOf d = Ok \<longleftrightarrow> d = None \<or> 30 < the d)"
  by (auto simp: statusOf_def)


text \<open>
  Thirty days with exits of 92, 30, 30 and 0 units of four products that have 23, 8, 31
  and 5 units in stock. For the first one \<^verbatim>\<open>23 / (92 / 30)\<close> is
  \<^verbatim>\<open>7.499999999999999\<close> in binary64, which \<^verbatim>\<open>Math.round\<close> takes to 7.
\<close>

lemma w_dailyAvg_a: "toDouble (46 / 15) = Inr (6905519428634761 / 2251799813685248)"
  using toDouble_normal [of "46 / 15" "1"] by (simp add: roundHalfEven_def Let_def)

lemma w_monthly_a: "toDouble (103582791429521415 / 1125899906842624) = Inr (92)"
  using toDouble_normal [of "103582791429521415 / 1125899906842624" "6"] by (simp add: roundHalfEven_def Let_def)

lemma w_days_a: "toDouble (51791395714760704 / 6905519428634761) = Inr (8444249301319679 / 1125899906842624)"
  using toDouble_normal [of "51791395714760704 / 6905519428634761" "2"] by (simp add: roundHalfEven_def Let_def)

lemma Object_entries_urgency:
  "Object_entries [(''a'', x1), (''b'', x2), (''c'', x3), (''d'', x4)]
     = [(''a'', x1), (''b'', x2), (''c'', x3), (''d'', x4)]"
  by (simp add: Object_entries_def is_array_index_def is_digit_def)

lemma urgency_eval:
  "consumptionData utcHost P30d urgencyExits urgencyProducts oneCategory =
     Inr [\<lparr>ce_product = mkProduct ''a'' 23 2, ce_category = Some (hd oneCategory),
           totalConsumed = 92, movCount = 1,
           dailyAvg = 6905519428634761 / 2251799813685248, monthlyProjection = 92,
           daysUntilEmpty = Some 7, status = Critical, costProjection = 184\<rparr>,
          \<lparr>ce_product = mkProduct ''b'' 8 2, ce_category = Some (hd oneCategory),
           totalConsumed = 30, movCount = 1,
           dailyAvg = 1, monthlyProjection = 30,
           daysUntilEmpty = Some 8, status = Warning, costProjection = 60\<rparr>,
          \<lparr>ce_product = mkProduct ''c'' 31 2, ce_category = Some (hd oneCategory),
           totalConsumed = 30, movCount = 1,
           dailyAvg = 1, monthlyProjection = 30,
           daysUntilEmpty = Some 31, status = Ok, costProjection = 60\<rparr>,
          \<lparr>ce_product = mkProduct ''d'' 5 2, ce_category = Some (hd oneCategory),
           totalConsumed = 0, movCount = 1,
           dailyAvg = 0, monthlyProjection = 0,
           daysUntilEmpty = None, status = Ok, costProjection = 0\<rparr>]"
proof -
  have g: "exitsByProduct urgencyExits =
     Inr [(''a'', \<lparr>total = 92, dates = [''2026-10-20T08:00:00.000Z'']\<rparr>),
          (''b'', \<lparr>total = 30, dates = [''2026-10-20T08:00:00.000Z'']\<rparr>),
          (''c'', \<lparr>total = 30, dates = [''2026-10-20T08:00:00.000Z'']\<rparr>),
          (''d'', \<lparr>total = 0, dates = [''2026-10-20T08:00:00.000Z'']\<rparr>)]"
    by (simp add: exitsByProduct_def exitStep_def urgencyExits_def mkMovement_def inheritedNames_def
      groupOf_def iadd_exact Let_def)
  show ?thesis
    unfolding consumptionData_def g bindF_Inr Object_entries_urgency
    by (simp add: consumptionRow_def urgencyProducts_def mkProduct_def oneCategory_def
        periodDays_def fdiv_def fmul_def Math_round_def statusOf_def List.map_filter_simps
        w_dailyAvg_a w_monthly_a w_days_a toDouble_numeral)
qed


section \<open>Recording a movement\<close>

lemma find_Some_set: "find P xs = Some x \<Longrightarrow> x \<in> set xs \<and> P x"
  by (induction xs) (auto split: if_splits)

lemma newQuantity_nonneg:
  assumes "(if mtype m = Entry then iadd (p_quantity product) (m_quantity m)
            else bindF (isub (p_quantity product) (m_quantity m)) (\<lambda>x. Inr (max 0 x))) = Inr n"
    and "0 \<le> p_quantity product" "mtype m = Entry \<longrightarrow> 0 \<le> m_quantity m"
  shows "0 \<le> n"
proof (cases "mtype m = Entry")
  case True
  with assms(1) have "iadd (p_quantity product) (m_quantity m) = Inr n" by simp
  then show ?thesis
    by (rule iadd_nonneg) (use assms(2,3) True in simp_all)
next
  case False
  with assms(1) have "bindF (isub (p_quantity product) (m_quantity m)) (\<lambda>x. Inr (max 0 x)) = Inr n"
    by simp
  then obtain x where "n = max 0 x" unfolding bindF_eq_Inr by auto
  then show ?thesis by simp
qed

lemma postMovement_products:
  "db_products (snd (postMovement d m)) = db_products d \<or>
   (\<exists>product n. find (\<lambda>p. p_id p = productId m) (db_products d) = Some product \<and>
      (if mtype m = Entry then iadd (p_quantity product) (m_quantity m)
       else bindF (isub (p_quantity product) (m_quantity m)) (\<lambda>x. Inr (max 0 x))) = Inr n \<and>
      db_products (snd (postMovement d m)) =
        map (\<lambda>p. if p_id p = productId m then p\<lparr>p_quantity := n\<rparr> else p) (db_products d))"
proof (cases "m_id m \<in> set (map m_id (db_movements d))
         \<or> productId m \<notin> set (map p_id (db_products d)) \<or> \<not> int4 (m_quantity m)")
  case True
  then have "postMovement d m = (Status500, d)"
    unfolding postMovement_def by (simp only: if_True)
  then show ?thesis by simp
next
  case False
  show ?thesis
  proof (cases "find (\<lambda>p. p_id p = productId m) (db_products d)")
    case None
    then have "postMovement d m = (Json, d\<lparr>db_movements := db_movements d @ [m]\<rparr>)"
      unfolding postMovement_def Let_def using False by simp
    then show ?thesis by simp
  next
    case (Some product)
    let ?r = "if mtype m = Entry then iadd (p_quantity product) (m_quantity m)
              else bindF (isub (p_quantity product) (m_quantity m)) (\<lambda>x. Inr (max 0 x))"
    have pm: "postMovement d m =
        (case ?r of
           Inl e \<Rightarrow> (Status500, d\<lparr>db_movements := db_movements d @ [m]\<rparr>)
         | Inr newQuantity \<Rightarrow>
             if int4 newQuantity
             then (Json, d\<lparr>db_movements := db_movements d @ [m], db_products :=
                     map (\<lambda>p. if p_id p = productId m then p\<lparr>p_quantity := newQuantity\<rparr> else p)
                         (db_products d)\<rparr>)
             else (Status500, d\<lparr>db_movements := db_movements d @ [m]\<rparr>))"
      unfolding postMovement_def Let_def using False Some
      by (simp cong: if_cong sum.case_cong split del: if_split)
    show ?thesis
    proof (cases ?r)
      case (Inl e)
      then show ?thesis unfolding pm by (simp only: sum.case snd_conv) simp
    next
      case (Inr n)
      show ?thesis
      proof (cases "int4 n")
        case True
        with Inr have "db_products (snd (postMovement d m)) =
          map (\<lambda>p. if p_id p = productId m then p\<lparr>p_quantity := n\<rparr> else p) (db_products d)"
          unfolding pm by (simp only: sum.case if_True snd_conv) simp
        with Some Inr show ?thesis by blast
      next
        case False
        with Inr show ?thesis unfolding pm by (simp only: sum.case if_False snd_conv) simp
      qed
    qed
  qed
qed

lemma postMovement_nonneg:
  assumes inv: "\<forall>p \<in> set (db_products d). 0 \<le> p_quantity p"
    and q: "mtype m = Entry \<longrightarrow> 0 \<le> m_quantity m"
  shows "\<forall>p \<in> set (db_products (snd (postMovement d m))). 0 \<le> p_quantity p"
  using postMovement_products [of d m]
proof (elim disjE exE conjE)
  assume "db_products (snd (postMovement d m)) = db_products d"
  with inv show ?thesis by simp
next
  fix product n
  assume f: "find (\<lambda>p. p_id p = productId m) (db_products d) = Some product"
    and r: "(if mtype m = Entry then iadd (p_quantity product) (m_quantity m)
       else bindF (isub (p_quantity product) (m_quantity m)) (\<lambda>x. Inr (max 0 x))) = Inr n"
    and e: "db_products (snd (postMovement d m)) =
        map (\<lambda>p. if p_id p = productId m then p\<lparr>p_quantity := n\<rparr> else p) (db_products d)"
  from f inv have "0 \<le> p_quantity product" by (auto dest: find_Some_set)
  with r q have "0 \<le> n" by (simp only: newQuantity_nonneg [of m product n])
  with inv show ?thesis unfolding e by auto
qed

lemma postMovement_rejected:
  assumes "m_id m \<in> set (map m_id (db_movements d))
           \<or> productId m \<notin> set (map p_id (db_products d)) \<or> \<not> int4 (m_quantity m)"
  shows "postMovement d m = (Status500, d)"
  using assms unfolding postMovement_def by (simp only: if_True)

lemma int4_sum:
  assumes "int4 a" "int4 b"
  shows "\<bar>a + b\<bar> \<le> 9007199254740992" "\<bar>a - b\<bar> \<le> 9007199254740992"
  using assms unfolding int4_def by linarith+

lemma postMovement_accepted:
  assumes acc: "m_id m \<notin> set (map m_id (db_movements d))"
      "productId m \<in> set (map p_id (db_products d))" "int4 (m_quantity m)"
    and p: "find (\<lambda>p. p_id p = productId m) (db_products d) = Some product"
      "int4 (p_quantity product)"
  shows "postMovement d m =
           (let n = (if mtype m = Entry then p_quantity product + m_quantity m
                     else max 0 (p_quantity product - m_quantity m))
            in if int4 n
               then (Json, \<lparr>db_products =
                             map (\<lambda>p. if p_id p = productId m then p\<lparr>p_quantity := n\<rparr> else p)
                               (db_products d),
                           db_movements = db_movements d @ [m]\<rparr>)
               else (Status500, \<lparr>db_products = db_products d,
                                 db_movements = db_movements d @ [m]\<rparr>))"
proof -
  have a: "iadd (p_quantity product) (m_quantity m) = Inr (p_quantity product + m_quantity m)"
    using int4_sum(1) [OF p(2) acc(3)] by (rule iadd_exact)
  have s: "isub (p_quantity product) (m_quantity m) = Inr (p_quantity product - m_quantity m)"
    using int4_sum(2) [OF p(2) acc(3)] by (rule isub_exact)
  show ?thesis
    using acc p(1) by (simp add: postMovement_def Let_def a s)
qed




end
